theory Spec2Isabelle
  imports Main "HOL-Library.Word"
begin

unbundle bit_operations_syntax

section \<open>Data model of \<^verbatim>\<open>net.c\<close>\<close>

text \<open>
  The file \<^verbatim>\<open>src/net.c\<close> holds three functions: \<^verbatim>\<open>accept_cb\<close>, \<^verbatim>\<open>peer_cb\<close> and
  \<^verbatim>\<open>read_packet\<close>. They work on the global client list \<^verbatim>\<open>clients\<close>, the counter
  \<^verbatim>\<open>num_clients\<close>, and on what the system calls \<^verbatim>\<open>accept\<close>, \<^verbatim>\<open>read\<close>, \<^verbatim>\<open>write\<close> and
  \<^verbatim>\<open>close\<close> return. The embedding passes the globals as a record, takes the results of
  the system calls as an argument, and collects every system call, every call of
  \<^verbatim>\<open>logmsg\<close> and every call of the external handler in a trace.
\<close>

type_synonym byte = "8 word"

text \<open>C's 32-bit \<^verbatim>\<open>int\<close> where it can overflow (the length decoding loop). C leaves the
  overflow of a signed multiplication undefined; here it wraps around as two's complement
  arithmetic does, and \<^const>\<open>sint\<close> reads the value.\<close>

type_synonym cint = "32 word"

text \<open>
  Modelled from the spec: \<^verbatim>\<open>data.h\<close>, which declares the client states, is not among
  the sources. \<^verbatim>\<open>net.c\<close> names \<^verbatim>\<open>S_CONNECTING\<close> only; the two other members follow
  the spec's handshake states \<open>Established\<close> and \<open>Closing\<close>.
\<close>

datatype ClientState = S_CONNECTING | S_ESTABLISHED | S_CLOSING

text \<open>
  Modelled from the spec: \<^verbatim>\<open>struct Envelope\<close> and \<^verbatim>\<open>struct Client\<close> are declared in
  \<^verbatim>\<open>data.h\<close>; the fields are the ones \<^verbatim>\<open>net.c\<close> reads and writes. Counters printed with
  \<^verbatim>\<open>%d\<close> are C \<^verbatim>\<open>int\<close>s; they stay far below \<open>2 ^ 31\<close> and are mathematical integers
  here. The receive buffer is a block of \<^verbatim>\<open>BUF_LEN\<close> bytes whose content is whatever
  \<^verbatim>\<open>malloc\<close> returned: a function from offsets to bytes, read as unsigned bytes (the
  spec's byte sequence).
\<close>

record Envelope =
  msg :: "byte list"
  bytes_total :: int
  bytes_sent :: int

record Client =
  fd :: int
  watcher_fd :: int
  state :: ClientState
  inbuf :: "nat \<Rightarrow> byte"
  inbuf_bytes :: int
  outgoing_msgs :: "Envelope list"

text \<open>One constructor for each \<^verbatim>\<open>logmsg\<close> call of \<^verbatim>\<open>net.c\<close>, with the values it prints.\<close>

datatype logline =
    Got_libev_event cint
  | Libev_invalid_event
  | Could_not_accept
  | New_connection
  | Getnameinfo_failed int
  | Client_disconnected
  | Could_not_close int
  | Read_failed int
  | Read_bytes int
  | Going_to_send int int
  | Msg_sent
  | Message_is_complete int
  | Expected_but_got int int
  | Invalid_client_state byte
  | Connect_from_client
  | Pingreq_from_client
  | Invalid_message_type byte

text \<open>
  The trace: log lines, system calls with their arguments and result, and calls of the
  external \<^verbatim>\<open>handle_connect\<close> with the descriptor of the client and the length passed.
  \<open>Sys_write\<close> holds the bytes offered to the kernel; a byte outside the message block is
  \<open>None\<close>.
\<close>

datatype event =
    Log logline
  | Sys_accept int int
  | Sys_read int int int
  | Sys_write int "byte option list" int
  | Sys_close int int
  | Call_handle_connect int int

record World =
  clients :: "Client list"
  num_clients :: int
  trace :: "event list"

text \<open>
  What the kernel answers during one callback: the bytes \<^verbatim>\<open>read\<close> delivers (\<open>None\<close>: it
  returns \<open>-1\<close>), \<^verbatim>\<open>errno\<close>, how many bytes \<^verbatim>\<open>write\<close> accepts (\<open>None\<close>: it returns \<open>-1\<close>),
  and the result of \<^verbatim>\<open>close\<close>.
\<close>

record Sys =
  read_data :: "byte list option"
  errno :: int
  write_accepts :: "nat option"
  close_ret :: int

datatype error = Assertion_failed

text \<open>The external handler \<^verbatim>\<open>handle_connect(client, msg_length)\<close> of \<^verbatim>\<open>mqtt.c\<close>: it
  returns an \<^verbatim>\<open>int\<close> and may change the client it is given.\<close>

type_synonym handler = "Client \<Rightarrow> int \<Rightarrow> int \<times> Client"

subsection \<open>Constants of the headers\<close>

text \<open>\<^verbatim>\<open>ev.h\<close> of libev.\<close>

definition EV_READ :: cint where "EV_READ = 0x01"
definition EV_WRITE :: cint where "EV_WRITE = 0x02"
definition EV_ERROR :: cint where "EV_ERROR = 0x80000000"

text \<open>\<^verbatim>\<open>errno.h\<close> of Linux.\<close>

definition EINTR :: int where "EINTR = 4"
definition EAGAIN :: int where "EAGAIN = 11"
definition EWOULDBLOCK :: int where "EWOULDBLOCK = 11"

text \<open>
  Modelled from the spec: \<^verbatim>\<open>mqtt.h\<close> and the header that defines \<^verbatim>\<open>BUF_LEN\<close> are not
  among the sources. The establishment frame of the spec's scenario starts with \<open>0x10\<close>
  and \<^verbatim>\<open>read_packet\<close> compares the type with the low nibble masked, so \<^verbatim>\<open>T_CONNECT\<close> is
  \<open>0x10\<close>; \<^verbatim>\<open>T_PINGREQ\<close> is the ping type \<open>0xC0\<close> of the protocol the comments of
  \<^verbatim>\<open>read_packet\<close> refer to; the comments of \<^verbatim>\<open>read_packet\<close> give the buffer 4096 bytes.
\<close>

definition T_CONNECT :: byte where "T_CONNECT = 0x10"
definition T_PINGREQ :: byte where "T_PINGREQ = 0xC0"
definition BUF_LEN :: int where "BUF_LEN = 4096"

section \<open>\<^verbatim>\<open>read_packet\<close>\<close>

text \<open>
  The \<^verbatim>\<open>do ... while\<close> loop of \<^verbatim>\<open>read_packet\<close> (lines 187 to 191). Each round reads
  \<^verbatim>\<open>thisbyte = inbuf[msg_index++]\<close>, assigns \<^verbatim>\<open>msg_length = (thisbyte & 0x7F) * multiplier\<close>
  and multiplies \<^verbatim>\<open>multiplier\<close> by 128; the loop goes on while the incremented index is
  below \<^verbatim>\<open>inbuf_bytes\<close> and \<^verbatim>\<open>thisbyte & 0x7F\<close> is not zero. The result is the last value
  assigned to \<^verbatim>\<open>msg_length\<close>. The arguments are the buffer, \<^verbatim>\<open>inbuf_bytes\<close>, and the
  values of \<^verbatim>\<open>msg_index\<close> and \<^verbatim>\<open>multiplier\<close> at the start of the round. The loop has no
  bound on the number of rounds other than \<^verbatim>\<open>inbuf_bytes\<close>; the multiplier of the last round
  is not used any more.
\<close>

function length_loop :: "(nat \<Rightarrow> byte) \<Rightarrow> int \<Rightarrow> int \<Rightarrow> cint \<Rightarrow> cint" where
  "length_loop buf n msg_index multiplier =
     (if msg_index + 1 < n \<and> (ucast (buf (nat msg_index)) :: cint) AND 0x7F \<noteq> 0
      then length_loop buf n (msg_index + 1) (multiplier * 128)
      else ((ucast (buf (nat msg_index)) :: cint) AND 0x7F) * multiplier)"
  by pat_completeness auto
termination
  by (relation "measure (\<lambda>(buf, n, msg_index, multiplier). nat (n - msg_index))") auto

text \<open>
  Lines 175 to 195: the pair of \<^verbatim>\<open>msg_length\<close> and \<^verbatim>\<open>msg_complete\<close>. \<^verbatim>\<open>msg_length\<close> starts
  as \<^verbatim>\<open>inbuf[1]\<close>; a length byte below 128 makes the message complete when
  \<^verbatim>\<open>inbuf_bytes - 2\<close> equals it; a length byte of 128 or more runs the loop from index 1
  with multiplier 1 and compares \<^verbatim>\<open>inbuf_bytes - 2\<close> with its result.
\<close>

definition remaining_length :: "Client \<Rightarrow> int \<times> bool" where
  "remaining_length client =
     (if uint (inbuf client 1) < 128 \<and> inbuf_bytes client - 2 = uint (inbuf client 1)
      then (uint (inbuf client 1), True)
      else if uint (inbuf client 1) \<ge> 128
      then (sint (length_loop (inbuf client) (inbuf_bytes client) 1 1),
            inbuf_bytes client - 2 = sint (length_loop (inbuf client) (inbuf_bytes client) 1 1))
      else (uint (inbuf client 1), False))"

text \<open>
  \<^verbatim>\<open>read_packet\<close>: the result is the returned \<^verbatim>\<open>int\<close>, the client as the function leaves
  it, and the events in the order they happen. The assertion of line 173 is the first
  branch. An incomplete message returns 0 (line 204). A complete message of a client in
  \<^verbatim>\<open>S_CONNECTING\<close> whose type is not \<^verbatim>\<open>T_CONNECT\<close> is logged and returns 0 (line 212). In the
  \<^verbatim>\<open>switch\<close>, only \<^verbatim>\<open>T_CONNECT\<close> calls a handler; the other cases leave \<^verbatim>\<open>ret\<close> at 0.
\<close>

definition read_packet :: "handler \<Rightarrow> Client \<Rightarrow> error + (int \<times> Client \<times> event list)" where
  "read_packet handle_connect client =
     (if \<not> inbuf_bytes client > 2 then Inl Assertion_failed
      else case remaining_length client of (msg_length, msg_complete) \<Rightarrow>
        if \<not> msg_complete
        then Inr (0, client, [Log (Expected_but_got msg_length (inbuf_bytes client - 2))])
        else if state client = S_CONNECTING \<and> inbuf client 0 AND 0xF0 \<noteq> T_CONNECT
        then Inr (0, client,
               [Log (Message_is_complete (inbuf_bytes client - 2)),
                Log (Invalid_client_state (inbuf client 0 AND 0xF0))])
        else if inbuf client 0 AND 0xF0 = T_CONNECT
        then Inr (fst (handle_connect client msg_length),
                  snd (handle_connect client msg_length),
               [Log (Message_is_complete (inbuf_bytes client - 2)),
                Log Connect_from_client,
                Call_handle_connect (fd client) msg_length])
        else if inbuf client 0 AND 0xF0 = T_PINGREQ
        then Inr (0, client,
               [Log (Message_is_complete (inbuf_bytes client - 2)),
                Log Pingreq_from_client])
        else Inr (0, client,
               [Log (Message_is_complete (inbuf_bytes client - 2)),
                Log (Invalid_message_type (inbuf client 0 AND 0xF0))]))"

section \<open>\<^verbatim>\<open>accept_cb\<close>\<close>

text \<open>
  \<^verbatim>\<open>accept_cb\<close> with the result \<^verbatim>\<open>peer_sd\<close> of \<^verbatim>\<open>accept\<close>, the result of \<^verbatim>\<open>getnameinfo\<close>
  and the content of the freshly allocated buffer as arguments. The accepted descriptor
  is compared with \<^verbatim>\<open>EAGAIN\<close>, \<^verbatim>\<open>EINTR\<close> and \<^verbatim>\<open>EWOULDBLOCK\<close> (line 48), then tested for
  being negative; otherwise a client in state \<^verbatim>\<open>S_CONNECTING\<close> with an empty buffer and
  an empty queue is inserted at the head of the list (\<^verbatim>\<open>LIST_INSERT_HEAD\<close>), with a watcher
  on the same descriptor.
\<close>

definition accept_cb :: "int \<Rightarrow> int \<Rightarrow> (nat \<Rightarrow> byte) \<Rightarrow> World \<Rightarrow> int \<Rightarrow> cint \<Rightarrow> World" where
  "accept_cb peer_sd gni fresh w listen_fd revents =
     (if EV_ERROR AND revents \<noteq> 0
      then w\<lparr>trace := trace w @ [Log (Got_libev_event revents), Log Libev_invalid_event]\<rparr>
      else if peer_sd = EAGAIN \<or> peer_sd = EINTR \<or> peer_sd = EWOULDBLOCK
      then w\<lparr>trace := trace w @ [Log (Got_libev_event revents), Sys_accept listen_fd peer_sd]\<rparr>
      else if peer_sd < 0
      then w\<lparr>trace := trace w @
             [Log (Got_libev_event revents), Sys_accept listen_fd peer_sd, Log Could_not_accept]\<rparr>
      else w\<lparr>clients :=
               \<lparr>fd = peer_sd, watcher_fd = peer_sd, state = S_CONNECTING, inbuf = fresh,
                inbuf_bytes = 0, outgoing_msgs = []\<rparr> # clients w,
             num_clients := num_clients w + 1,
             trace := trace w @
               [Log (Got_libev_event revents), Sys_accept listen_fd peer_sd,
                Log (if gni = 0 then New_connection else Getnameinfo_failed gni)]\<rparr>)"

section \<open>\<^verbatim>\<open>peer_cb\<close>\<close>

text \<open>
  The lookup of lines 86 to 89: \<^verbatim>\<open>LIST_FOREACH\<close> walks the list from its head and leaves
  the loop at the first client for which \<^verbatim>\<open>client->fd == client->fd\<close>; at the end of the
  list \<^verbatim>\<open>client\<close> is \<^verbatim>\<open>NULL\<close>. The result is the position of the client in the list; the
  second argument counts the clients already passed. The watcher of the event does not
  occur in the loop.
\<close>

fun lookup_client :: "Client list \<Rightarrow> nat \<Rightarrow> nat option" where
  "lookup_client [] i = None"
| "lookup_client (client # rest) i =
     (if fd client = fd client then Some i else lookup_client rest (Suc i))"

text \<open>\<^verbatim>\<open>read\<close> stores the bytes it delivers from \<^verbatim>\<open>inbuf + inbuf_bytes\<close> on.\<close>

definition store :: "(nat \<Rightarrow> byte) \<Rightarrow> int \<Rightarrow> byte list \<Rightarrow> nat \<Rightarrow> byte" where
  "store buf off data =
     (\<lambda>i. if nat off \<le> i \<and> i < nat off + length data then data ! (i - nat off) else buf i)"

text \<open>The \<open>cnt\<close> bytes at \<^verbatim>\<open>msg + off\<close> that \<^verbatim>\<open>write\<close> is given; \<open>None\<close> outside the block.\<close>

definition mem_read :: "byte list \<Rightarrow> int \<Rightarrow> int \<Rightarrow> byte option list" where
  "mem_read block off cnt =
     map (\<lambda>k. if 0 \<le> off + int k \<and> off + int k < int (length block)
              then Some (block ! nat (off + int k)) else None) [0 ..< nat cnt]"

text \<open>\<^verbatim>\<open>LIST_REMOVE\<close> of the client at position \<open>i\<close>.\<close>

definition list_remove :: "'a list \<Rightarrow> nat \<Rightarrow> 'a list" where
  "list_remove xs i = take i xs @ drop (Suc i) xs"

text \<open>
  The read branch (lines 95 to 132) for the client at position \<open>i\<close>. \<^verbatim>\<open>read\<close> is asked for
  \<^verbatim>\<open>BUF_LEN - inbuf_bytes\<close> bytes and delivers at most that many. \<open>ret0\<close> is the content of
  the local variable \<^verbatim>\<open>ret\<close>, which is declared without a value (line 82) and assigned
  only when \<^verbatim>\<open>read_packet\<close> is called (line 128), but tested in every case (line 131).
  A result of 0 closes the descriptor and removes the client; the test for \<open>-1\<close> and
  \<^verbatim>\<open>EAGAIN\<close> of line 100 stands inside that branch. A result of \<open>-1\<close> is logged and the
  callback returns (lines 119 to 121).
\<close>

definition peer_readable :: "handler \<Rightarrow> Sys \<Rightarrow> int \<Rightarrow> World \<Rightarrow> nat \<Rightarrow> error + World" where
  "peer_readable handle_connect sys ret0 w i =
     (let client = clients w ! i;
          count = BUF_LEN - inbuf_bytes client;
          data = (case read_data sys of None \<Rightarrow> [] | Some d \<Rightarrow> take (nat count) d);
          bytes_read = (case read_data sys of None \<Rightarrow> - 1 | Some d \<Rightarrow> int (length data));
          rd = Sys_read (fd client) count bytes_read
      in if bytes_read = 0
         then if bytes_read = - 1 \<and> errno sys = EAGAIN
           then Inr (w\<lparr>num_clients := num_clients w - 1,
                       trace := trace w @ [rd, Log Client_disconnected]\<rparr>)
           else Inr (w\<lparr>clients := list_remove (clients w) i,
                       num_clients := num_clients w - 1,
                       trace := trace w @
                         [rd, Log Client_disconnected, Sys_close (fd client) (close_ret sys)] @
                         (if close_ret sys \<noteq> 0 then [Log (Could_not_close (close_ret sys))]
                          else [])\<rparr>)
         else if bytes_read = - 1
         then Inr (w\<lparr>trace := trace w @ [rd, Log (Read_failed bytes_read)]\<rparr>)
         else
           let received = client\<lparr>inbuf := store (inbuf client) (inbuf_bytes client) data,
                                 inbuf_bytes := inbuf_bytes client + bytes_read\<rparr>
           in if inbuf_bytes received > 2
              then case read_packet handle_connect received of
                     Inl e \<Rightarrow> Inl e
                   | Inr (ret, handled, evs) \<Rightarrow>
                       Inr (w\<lparr>clients := (clients w)
                                [i := (if ret \<noteq> 0 then handled\<lparr>inbuf_bytes := 0\<rparr> else handled)],
                              trace := trace w @ [rd, Log (Read_bytes bytes_read)] @ evs\<rparr>)
              else Inr (w\<lparr>clients := (clients w)
                            [i := (if ret0 \<noteq> 0 then received\<lparr>inbuf_bytes := 0\<rparr> else received)],
                          trace := trace w @ [rd, Log (Read_bytes bytes_read)]\<rparr>))"

text \<open>
  The write branch (lines 134 to 168) for the client at position \<open>i\<close>. Every path through
  the body of \<^verbatim>\<open>LIST_FOREACH\<close> ends in \<^verbatim>\<open>break\<close>, so the body runs for the first envelope
  of the queue, or not at all when the queue is empty. \<^verbatim>\<open>write\<close> is given the bytes from
  \<^verbatim>\<open>msg + bytes_sent\<close> on and returns how many of them it took, or \<open>-1\<close>. A negative result
  is compared with \<^verbatim>\<open>EAGAIN\<close>, \<^verbatim>\<open>EWOULDBLOCK\<close> and \<^verbatim>\<open>EINTR\<close> (line 148); in every other case
  the result is added to \<^verbatim>\<open>bytes_sent\<close> (line 156), and the envelope leaves the queue when
  \<^verbatim>\<open>bytes_sent\<close> equals \<^verbatim>\<open>bytes_total\<close>.
\<close>

definition peer_writable :: "Sys \<Rightarrow> World \<Rightarrow> nat \<Rightarrow> error + World" where
  "peer_writable sys w i =
     (let client = clients w ! i
      in case outgoing_msgs client of
           [] \<Rightarrow> Inr w
         | envelope # rest \<Rightarrow>
             if \<not> bytes_total envelope \<noteq> bytes_sent envelope then Inl Assertion_failed
             else
               let offered = mem_read (msg envelope) (bytes_sent envelope)
                               (bytes_total envelope - bytes_sent envelope);
                   ret = (case write_accepts sys of
                            None \<Rightarrow> - 1
                          | Some k \<Rightarrow> int (min k (length offered)));
                   evs = [Log (Going_to_send (bytes_total envelope - bytes_sent envelope)
                                 (bytes_total envelope)),
                          Sys_write (fd client) offered ret]
               in if ret < 0 \<and> (ret = EAGAIN \<or> ret = EWOULDBLOCK \<or> ret = EINTR)
                  then Inr (w\<lparr>trace := trace w @ evs\<rparr>)
                  else if bytes_sent envelope + ret = bytes_total envelope
                  then Inr (w\<lparr>clients := (clients w)[i := client\<lparr>outgoing_msgs := rest\<rparr>],
                              trace := trace w @ evs @ [Log Msg_sent]\<rparr>)
                  else Inr (w\<lparr>clients := (clients w)
                                [i := client\<lparr>outgoing_msgs :=
                                       envelope\<lparr>bytes_sent := bytes_sent envelope + ret\<rparr> # rest\<rparr>],
                              trace := trace w @ evs\<rparr>))"

text \<open>
  \<^verbatim>\<open>peer_cb\<close>: the lookup, the two assertions of lines 91 and 92, then the read branch
  when \<^verbatim>\<open>revents & EV_READ\<close> is set, else the write branch when \<^verbatim>\<open>revents & EV_WRITE\<close> is
  set. \<open>peer_w_fd\<close> is the descriptor of the watcher \<^verbatim>\<open>peer_w\<close> the event belongs to; the
  function does not read it.
\<close>

definition peer_cb :: "handler \<Rightarrow> Sys \<Rightarrow> int \<Rightarrow> World \<Rightarrow> int \<Rightarrow> cint \<Rightarrow> error + World" where
  "peer_cb handle_connect sys ret0 w peer_w_fd revents =
     (case lookup_client (clients w) 0 of
        None \<Rightarrow> Inl Assertion_failed
      | Some i \<Rightarrow>
          if \<not> watcher_fd (clients w ! i) = fd (clients w ! i) then Inl Assertion_failed
          else if revents AND EV_READ \<noteq> 0 then peer_readable handle_connect sys ret0 w i
          else if revents AND EV_WRITE \<noteq> 0 then peer_writable sys w i
          else Inr w)"

section \<open>Observations and scenarios\<close>

text \<open>The \<^verbatim>\<open>write\<close> calls of a trace.\<close>

fun is_write :: "event \<Rightarrow> bool" where
  "is_write (Sys_write f offered r) = True"
| "is_write e = False"

text \<open>
  What the decoder hands on: the reports of a complete message and the calls of the
  handler.
\<close>

fun is_decoded :: "event \<Rightarrow> bool" where
  "is_decoded (Log (Message_is_complete n)) = True"
| "is_decoded (Call_handle_connect f n) = True"
| "is_decoded e = False"

text \<open>The bytes a trace puts on the wire: of each \<^verbatim>\<open>write\<close>, as many of the offered bytes
  as the call returned.\<close>

fun wire :: "event list \<Rightarrow> byte option list" where
  "wire [] = []"
| "wire (Sys_write f offered r # es) = take (nat r) offered @ wire es"
| "wire (e # es) = wire es"

text \<open>The results of the \<^verbatim>\<open>write\<close> calls of a trace, in their order.\<close>

fun write_returns :: "event list \<Rightarrow> int list" where
  "write_returns [] = []"
| "write_returns (Sys_write f offered r # es) = r # write_returns es"
| "write_returns (e # es) = write_returns es"

text \<open>
  The send attempts that a sequence of write-readiness events is to make, as numbers: the
  first argument holds the numbers of pending bytes of the queued envelopes, the second
  how many bytes the kernel takes at each event. Each event with an envelope queued
  makes one attempt, for the first envelope, and sends as many of its pending bytes as
  the kernel takes; an envelope with no byte left pending leaves the queue; an event with
  an empty queue makes no attempt. The result is the number of bytes sent by each
  attempt.
\<close>

fun send_sizes :: "nat list \<Rightarrow> nat list \<Rightarrow> nat list" where
  "send_sizes [] ks = []"
| "send_sizes (l # ls) [] = []"
| "send_sizes (l # ls) (k # ks) =
     min k l # send_sizes (if l \<le> k then ls else (l - k) # ls) ks"

text \<open>How many bytes the kernel takes at a \<^verbatim>\<open>write\<close> that succeeds.\<close>

definition accepted :: "Sys \<Rightarrow> nat" where
  "accepted sys = (case write_accepts sys of None \<Rightarrow> 0 | Some k \<Rightarrow> k)"

text \<open>The bytes of an envelope that are not sent yet, and the state of an envelope that
  waits in a queue: some but not all of its \<^verbatim>\<open>bytes_total\<close> bytes are sent.\<close>

definition pending :: "Envelope \<Rightarrow> byte list" where
  "pending e = drop (nat (bytes_sent e)) (msg e)"

definition envelope_ok :: "Envelope \<Rightarrow> bool" where
  "envelope_ok e =
     (0 \<le> bytes_sent e \<and> bytes_sent e < bytes_total e \<and> bytes_total e = int (length (msg e)))"

text \<open>
  Concrete inputs: a buffer of zero bytes, a \<^verbatim>\<open>handle_connect\<close> that accepts every
  client, a kernel that delivers given bytes to \<^verbatim>\<open>read\<close>, a kernel whose \<^verbatim>\<open>write\<close> takes
  up to \<open>k\<close> bytes, a world with one client on descriptor 5, and the world after
  \<^verbatim>\<open>accept_cb\<close> has accepted descriptors 5 and 6 on the listening descriptor 3.
\<close>

definition zeroed :: "nat \<Rightarrow> byte" where
  "zeroed = (\<lambda>i. 0)"

definition accepting :: handler where
  "accepting client len = (1, client\<lparr>state := S_ESTABLISHED\<rparr>)"

definition delivers :: "byte list \<Rightarrow> Sys" where
  "delivers bs = \<lparr>read_data = Some bs, errno = 0, write_accepts = None, close_ret = 0\<rparr>"

definition takes :: "nat \<Rightarrow> Sys" where
  "takes k = \<lparr>read_data = None, errno = 0, write_accepts = Some k, close_ret = 0\<rparr>"

definition one_client :: "ClientState \<Rightarrow> Envelope list \<Rightarrow> World" where
  "one_client st q =
     \<lparr>clients = [\<lparr>fd = 5, watcher_fd = 5, state = st, inbuf = zeroed, inbuf_bytes = 0,
                  outgoing_msgs = q\<rparr>],
      num_clients = 1, trace = []\<rparr>"

definition two_clients :: World where
  "two_clients =
     accept_cb 6 0 zeroed
       (accept_cb 5 0 zeroed \<lparr>clients = [], num_clients = 0, trace = []\<rparr> 3 EV_READ)
       3 EV_READ"

text \<open>
  The event loop of libev calls \<^verbatim>\<open>peer_cb\<close> once for each readiness event. A sequence of
  write-readiness events, each with what the kernel answers (the write branch does not
  read \<^verbatim>\<open>ret\<close> of line 82, which is 0 here); and a sequence of read-readiness events,
  each with the bytes its \<^verbatim>\<open>read\<close> delivers. Both stop at the first failed assertion.
\<close>

fun writable_events :: "handler \<Rightarrow> Sys list \<Rightarrow> World \<Rightarrow> int \<Rightarrow> error + World" where
  "writable_events h [] w pfd = Inr w"
| "writable_events h (sys # rest) w pfd =
     (case peer_cb h sys 0 w pfd EV_WRITE of
        Inl e \<Rightarrow> Inl e
      | Inr w' \<Rightarrow> writable_events h rest w' pfd)"

fun readable_events ::
  "handler \<Rightarrow> int \<Rightarrow> byte list list \<Rightarrow> World \<Rightarrow> int \<Rightarrow> error + World" where
  "readable_events h r0 [] w pfd = Inr w"
| "readable_events h r0 (chunk # chunks) w pfd =
     (case peer_cb h (delivers chunk) r0 w pfd EV_READ of
        Inl e \<Rightarrow> Inl e
      | Inr w' \<Rightarrow> readable_events h r0 chunks w' pfd)"

section \<open>Evaluation\<close>

lemmas unfold_model =
  peer_cb_def peer_readable_def peer_writable_def read_packet_def remaining_length_def
  accept_cb_def store_def mem_read_def list_remove_def Let_def upt_conv_Cons
  EV_READ_def EV_WRITE_def EV_ERROR_def BUF_LEN_def T_CONNECT_def T_PINGREQ_def
  EAGAIN_def EINTR_def EWOULDBLOCK_def
  zeroed_def accepting_def delivers_def takes_def one_client_def two_clients_def

section \<open>The frame decoder\<close>

text \<open>
  C1. The claim: the total frame length is 1 plus the number of length bytes plus the
  decoded remaining length, and the frame \<open>0x20 0x80 0x01\<close> followed by 128 payload bytes
  is decoded as complete with length 128. The code at that input: an established client
  reads the 131 bytes in one \<^verbatim>\<open>read\<close>; \<^verbatim>\<open>read_packet\<close> computes the length 0, compares it
  with \<open>131 - 2\<close>, logs that it expected 0 bytes but got 129, and returns 0; the 131 bytes
  stay in the buffer and no message is reported complete.
\<close>

theorem two_byte_length_frame_incomplete:
  "(case peer_cb accepting (delivers ([0x20, 0x80, 0x01] @ replicate 128 0x41)) 0
           (one_client S_ESTABLISHED []) 5 EV_READ of
      Inl e \<Rightarrow> False
    | Inr w \<Rightarrow>
        map inbuf_bytes (clients w) = [131] \<and>
        trace w = [Sys_read 5 4096 131, Log (Read_bytes 131), Log (Expected_but_got 0 129)])"
  by (simp add: unfold_model)

text \<open>
  C2. The claim: decoding the base-128 encoding of a length \<open>L\<close> yields \<open>L\<close>, and a fifth
  length byte is rejected as a framing error. The code at the encoding \<open>0x80 0x02\<close> of
  \<open>L = 256\<close>, followed by 256 payload bytes: the loop stops after the first length byte,
  whose low seven bits are zero, with \<^verbatim>\<open>msg_length = 0\<close>, and the message is not complete.
  At a buffer with five length bytes \<open>0x81 0x81 0x81 0x81 0x01\<close> the loop reads all five,
  leaves \<open>2 ^ 28\<close> in \<^verbatim>\<open>msg_length\<close> and \<^verbatim>\<open>read_packet\<close> returns 0 as for any incomplete
  message.
\<close>

theorem length_256_decoded_as_0:
  "remaining_length
     \<lparr>fd = 5, watcher_fd = 5, state = S_ESTABLISHED,
      inbuf = store zeroed 0 ([0x30, 0x80, 0x02] @ replicate 256 0x41),
      inbuf_bytes = 259, outgoing_msgs = []\<rparr> = (0, False) \<and>
   map_sum id fst (read_packet accepting
     \<lparr>fd = 5, watcher_fd = 5, state = S_ESTABLISHED,
      inbuf = store zeroed 0 [0x30, 0x81, 0x81, 0x81, 0x81, 0x01],
      inbuf_bytes = 6, outgoing_msgs = []\<rparr>) = Inr 0 \<and>
   remaining_length
     \<lparr>fd = 5, watcher_fd = 5, state = S_ESTABLISHED,
      inbuf = store zeroed 0 [0x30, 0x81, 0x81, 0x81, 0x81, 0x01],
      inbuf_bytes = 6, outgoing_msgs = []\<rparr> = (268435456, False)"
  by (simp add: unfold_model)

lemma read_packet_incomplete:
  assumes "2 < inbuf_bytes c" and "uint (inbuf c 1) < 128"
    and "inbuf_bytes c - 2 \<noteq> uint (inbuf c 1)"
  shows "read_packet h c =
    Inr (0, c, [Log (Expected_but_got (uint (inbuf c 1)) (inbuf_bytes c - 2))])"
  using assms by (simp add: read_packet_def remaining_length_def)

text \<open>
  C4, as claimed: the frame \<open>0x10 0x00\<close> is complete as soon as its two bytes are buffered,
  and the decoder proceeds with at least two buffered bytes. The code at a connecting
  client that reads exactly these two bytes: \<^verbatim>\<open>read_packet\<close> is not called (line 127 asks
  for more than two bytes), nothing is reported complete, the accepting handler is not
  called, and the client stays in \<^verbatim>\<open>S_CONNECTING\<close>.
\<close>

theorem header_only_frame_not_decoded:
  "(case peer_cb accepting (delivers [0x10, 0x00]) 0 (one_client S_CONNECTING []) 5 EV_READ of
      Inl e \<Rightarrow> False
    | Inr w \<Rightarrow>
        map state (clients w) = [S_CONNECTING] \<and> map inbuf_bytes (clients w) = [2] \<and>
        trace w = [Sys_read 5 4096 2, Log (Read_bytes 2)])"
  by (simp add: unfold_model)

text \<open>
  C4, amended: a frame whose remaining length is 0 is never recognised as complete, and
  nothing is decoded while at most two bytes are buffered. After a read that delivers
  bytes into the buffer, if at most two bytes are buffered, or if the length byte at
  offset 1 is zero, then no message is reported complete and no handler is called in
  this callback, and the state of every client is as before.
\<close>

theorem header_only_frame_never_complete:
  assumes "clients w = c # cs" and "watcher_fd c = fd c"
    and "read_data sys = Some data" and "data \<noteq> []"
    and "0 \<le> inbuf_bytes c" and "inbuf_bytes c + int (length data) \<le> BUF_LEN"
    and "inbuf_bytes c + int (length data) \<le> 2 \<or> store (inbuf c) (inbuf_bytes c) data 1 = 0"
  shows "\<exists>w'. peer_cb h sys r0 w pfd EV_READ = Inr w' \<and>
           filter is_decoded (trace w') = filter is_decoded (trace w) \<and>
           map state (clients w') = map state (clients w) \<and>
           num_clients w' = num_clients w"
proof -
  let ?n = "inbuf_bytes c + int (length data)"
  let ?received = "c\<lparr>inbuf := store (inbuf c) (inbuf_bytes c) data, inbuf_bytes := ?n\<rparr>"
  have fits: "take (nat (BUF_LEN - inbuf_bytes c)) data = data"
    using assms(5,6) by simp
  have room: "inbuf_bytes c < BUF_LEN"
    using assms(4,6) by (cases data) auto
  show ?thesis
  proof (cases "2 < ?n")
    case False
    then show ?thesis
      using assms(1-4) fits room
      by (simp add: peer_cb_def peer_readable_def EV_READ_def Let_def)
  next
    case True
    with assms(7) have zero: "inbuf ?received 1 = 0"
      by simp
    have "read_packet h ?received =
        Inr (0, ?received,
          [Log (Expected_but_got (uint (inbuf ?received 1)) (inbuf_bytes ?received - 2))])"
      by (rule read_packet_incomplete) (use True zero in simp_all)
    then show ?thesis
      using assms(1-4) fits room True
      by (simp add: peer_cb_def peer_readable_def EV_READ_def Let_def)
  qed
qed

theorem header_only_frame_never_complete_witness:
  "\<exists>w'. peer_cb accepting (delivers [0x10, 0x00, 0x00]) 0 (one_client S_CONNECTING []) 5
           EV_READ = Inr w' \<and>
         filter is_decoded (trace w') = [] \<and> map state (clients w') = [S_CONNECTING] \<and>
         num_clients w' = 1"
  using header_only_frame_never_complete
    [of "one_client S_CONNECTING []"
        "\<lparr>fd = 5, watcher_fd = 5, state = S_CONNECTING, inbuf = zeroed, inbuf_bytes = 0,
          outgoing_msgs = []\<rparr>"
        "[]" "delivers [0x10, 0x00, 0x00]" "[0x10, 0x00, 0x00]" accepting 0 5]
  by (simp add: one_client_def delivers_def BUF_LEN_def store_def)

section \<open>The receive path\<close>

text \<open>
  C3, as claimed: however a byte stream is split across reads, the same frames are
  extracted as when it arrives in one read, the decoder running until it needs more
  data. The code with a stream of two establishment frames \<open>0x10 0x01 0x00\<close>: read one
  frame at a time, each is reported complete and handed to \<^verbatim>\<open>handle_connect\<close>, and the
  buffer is reset each time; read in one piece, the decoder runs once, compares the six
  buffered bytes with the length of the first frame, and reports nothing; the six bytes
  stay in the buffer.
\<close>

theorem two_frames_in_one_read:
  "(case readable_events accepting 0 [[0x10, 0x01, 0x00], [0x10, 0x01, 0x00]]
           (one_client S_CONNECTING []) 5 of
      Inl e \<Rightarrow> False
    | Inr w \<Rightarrow>
        filter is_decoded (trace w) =
          [Log (Message_is_complete 1), Call_handle_connect 5 1,
           Log (Message_is_complete 1), Call_handle_connect 5 1] \<and>
        map inbuf_bytes (clients w) = [0]) \<and>
   (case readable_events accepting 0 [[0x10, 0x01, 0x00, 0x10, 0x01, 0x00]]
           (one_client S_CONNECTING []) 5 of
      Inl e \<Rightarrow> False
    | Inr w \<Rightarrow>
        filter is_decoded (trace w) = [] \<and> map inbuf_bytes (clients w) = [6])"
  by (simp add: unfold_model)

lemma store_append:
  "0 \<le> n \<Longrightarrow> store (store buf n xs) (n + int (length xs)) ys = store buf n (xs @ ys)"
  by (auto simp add: store_def fun_eq_iff nth_append nat_add_distrib)

text \<open>One read-readiness event that delivers bytes and leaves more than two in the
  buffer: \<^verbatim>\<open>read_packet\<close> runs once, and a result other than 0 resets the buffer.\<close>

lemma peer_cb_read_step:
  assumes "clients w = c # cs" and "watcher_fd c = fd c" and "0 \<le> inbuf_bytes c"
    and "data \<noteq> []" and "inbuf_bytes c + int (length data) \<le> BUF_LEN"
    and "2 < inbuf_bytes c + int (length data)"
  shows "peer_cb h (delivers data) r0 w pfd EV_READ =
    (case read_packet h (c\<lparr>inbuf := store (inbuf c) (inbuf_bytes c) data,
                             inbuf_bytes := inbuf_bytes c + int (length data)\<rparr>) of
       Inl e \<Rightarrow> Inl e
     | Inr (ret, handled, evs) \<Rightarrow>
         Inr (w\<lparr>clients := (if ret \<noteq> 0 then handled\<lparr>inbuf_bytes := 0\<rparr> else handled) # cs,
                trace := trace w @
                  [Sys_read (fd c) (BUF_LEN - inbuf_bytes c) (int (length data)),
                   Log (Read_bytes (int (length data)))] @ evs\<rparr>))"
proof -
  have fits: "take (nat (BUF_LEN - inbuf_bytes c)) data = data"
    using assms(3,5) by simp
  have room: "inbuf_bytes c < BUF_LEN"
    using assms(4,5) by (cases data) auto
  show ?thesis
    using assms(1,2,4,6) room
    by (simp add: peer_cb_def peer_readable_def EV_READ_def Let_def delivers_def fits
        split: sum.splits prod.splits)
qed


lemma store_prefix:
  "0 \<le> n \<Longrightarrow> i < nat n + length xs \<Longrightarrow> store buf n (xs @ ys) i = store buf n xs i"
  by (auto simp add: store_def nth_append)

lemma read_packet_complete:
  assumes "2 < inbuf_bytes c" and "uint (inbuf c 1) < 128"
    and "inbuf_bytes c - 2 = uint (inbuf c 1)"
  shows "\<exists>ret handled evs calls. read_packet h c = Inr (ret, handled, evs) \<and>
           filter is_decoded evs = Log (Message_is_complete (inbuf_bytes c - 2)) # calls"
  using assms by (simp add: read_packet_def remaining_length_def)

lemma read_packet_decoded:
  assumes "2 < inbuf_bytes c" and "uint (inbuf c 1) < 128"
    and "inbuf_bytes c - 2 = uint (inbuf c 1)"
    and "read_packet h c = Inr (ret, handled, evs)"
  shows "filter is_decoded evs =
    Log (Message_is_complete (inbuf_bytes c - 2)) #
    (if inbuf c 0 AND 0xF0 = T_CONNECT
     then [Call_handle_connect (fd c) (inbuf_bytes c - 2)] else [])"
  using assms by (auto simp add: read_packet_def remaining_length_def split: if_splits)

lemma feed_chunks:
  assumes "clients w = c # cs" and "watcher_fd c = fd c" and "inbuf_bytes c = int n"
    and "chunks \<noteq> []" and "[] \<notin> set chunks" and "2 < n + length (hd chunks)"
    and "n + length (concat chunks) = 2 + L" and "L < 128"
    and "uint (store (inbuf c) (int n) (concat chunks) 1) = int L"
  shows "\<exists>w1 ret handled evs calls.
     readable_events h r0 chunks w pfd = Inr w1 \<and>
     read_packet h (c\<lparr>inbuf := store (inbuf c) (int n) (concat chunks),
                      inbuf_bytes := int (2 + L)\<rparr>) = Inr (ret, handled, evs) \<and>
     clients w1 = (if ret \<noteq> 0 then handled\<lparr>inbuf_bytes := 0\<rparr> else handled) # cs \<and>
     num_clients w1 = num_clients w \<and>
     filter is_decoded (trace w1) = filter is_decoded (trace w) @ filter is_decoded evs \<and>
     filter is_decoded evs = Log (Message_is_complete (int L)) # calls"
  using assms
proof (induction chunks arbitrary: w c n)
  case Nil
  then show ?case by simp
next
  case (Cons ch rest)
  let ?n' = "n + length ch"
  let ?c1 = "c\<lparr>inbuf := store (inbuf c) (int n) ch, inbuf_bytes := int ?n'\<rparr>"
  have ne: "ch \<noteq> []" and big: "2 < ?n'"
    using Cons.prems(5,6) by auto
  have bound: "?n' \<le> 2 + L"
    using Cons.prems(7) by simp
  have fits: "inbuf_bytes c + int (length ch) \<le> BUF_LEN"
    using bound Cons.prems(3,8) by (simp add: BUF_LEN_def)
  have step: "peer_cb h (delivers ch) r0 w pfd EV_READ =
    (case read_packet h ?c1 of
       Inl e \<Rightarrow> Inl e
     | Inr (ret, handled, evs) \<Rightarrow>
         Inr (w\<lparr>clients := (if ret \<noteq> 0 then handled\<lparr>inbuf_bytes := 0\<rparr> else handled) # cs,
                trace := trace w @
                  [Sys_read (fd c) (BUF_LEN - inbuf_bytes c) (int (length ch)),
                   Log (Read_bytes (int (length ch)))] @ evs\<rparr>))"
    using peer_cb_read_step [OF Cons.prems(1,2) _ ne fits, of h r0 pfd] big Cons.prems(3)
    by simp
  show ?case
  proof (cases rest)
    case Nil
    with Cons.prems(7) have all: "?n' = 2 + L"
      by simp
    with Cons.prems(9) Nil have "uint (inbuf ?c1 1) = int L"
      by simp
    moreover have "0 < L"
      using big all by simp
    ultimately obtain ret handled evs calls
      where rp: "read_packet h ?c1 = Inr (ret, handled, evs)"
        "filter is_decoded evs = Log (Message_is_complete (int L)) # calls"
      using read_packet_complete [of ?c1 h] all Cons.prems(8) by auto
    with step Nil all show ?thesis
      by simp
  next
    case (Cons ch2 rest2)
    have short: "?n' < 2 + L"
      using Cons.prems(5,7) Cons by (cases ch2) auto
    have "store (inbuf c) (int n) (ch @ concat rest) 1 = store (inbuf c) (int n) ch 1"
      by (rule store_prefix) (use big in simp_all)
    with Cons.prems(9) have len1: "uint (inbuf ?c1 1) = int L"
      by simp
    define w1 where "w1 = w\<lparr>clients := ?c1 # cs,
        trace := trace w @
          [Sys_read (fd c) (BUF_LEN - inbuf_bytes c) (int (length ch)),
           Log (Read_bytes (int (length ch))),
           Log (Expected_but_got (int L) (int ?n' - 2))]\<rparr>"
    have "read_packet h ?c1 =
        Inr (0, ?c1, [Log (Expected_but_got (uint (inbuf ?c1 1)) (inbuf_bytes ?c1 - 2))])"
      by (rule read_packet_incomplete) (use big short len1 Cons.prems(8) in simp_all)
    with step len1 have step1: "peer_cb h (delivers ch) r0 w pfd EV_READ = Inr w1"
      by (simp add: w1_def)
    have joined: "store (inbuf ?c1) (int ?n') (concat rest) =
        store (inbuf c) (int n) (concat (ch # rest))"
      using store_append [of "int n" "inbuf c" ch "concat rest"] by simp
    have "\<exists>w2 ret handled evs calls.
       readable_events h r0 rest w1 pfd = Inr w2 \<and>
       read_packet h (?c1\<lparr>inbuf := store (inbuf ?c1) (int ?n') (concat rest),
                        inbuf_bytes := int (2 + L)\<rparr>) = Inr (ret, handled, evs) \<and>
       clients w2 = (if ret \<noteq> 0 then handled\<lparr>inbuf_bytes := 0\<rparr> else handled) # cs \<and>
       num_clients w2 = num_clients w1 \<and>
       filter is_decoded (trace w2) = filter is_decoded (trace w1) @ filter is_decoded evs \<and>
       filter is_decoded evs = Log (Message_is_complete (int L)) # calls"
    proof (rule Cons.IH)
      show "clients w1 = ?c1 # cs" by (simp add: w1_def)
      show "watcher_fd ?c1 = fd ?c1" using Cons.prems(2) by simp
      show "inbuf_bytes ?c1 = int ?n'" by simp
      show "rest \<noteq> []" using Cons by simp
      show "[] \<notin> set rest" using Cons.prems(5) by simp
      show "2 < ?n' + length (hd rest)" using big by simp
      show "?n' + length (concat rest) = 2 + L" using Cons.prems(7) by simp
      show "L < 128" by (rule Cons.prems(8))
      show "uint (store (inbuf ?c1) (int ?n') (concat rest) 1) = int L"
        using joined Cons.prems(9) by simp
    qed
    then obtain w2 ret handled evs calls where run:
      "readable_events h r0 rest w1 pfd = Inr w2"
      "read_packet h (?c1\<lparr>inbuf := store (inbuf ?c1) (int ?n') (concat rest),
                        inbuf_bytes := int (2 + L)\<rparr>) = Inr (ret, handled, evs)"
      "clients w2 = (if ret \<noteq> 0 then handled\<lparr>inbuf_bytes := 0\<rparr> else handled) # cs"
      "num_clients w2 = num_clients w1"
      "filter is_decoded (trace w2) = filter is_decoded (trace w1) @ filter is_decoded evs"
      "filter is_decoded evs = Log (Message_is_complete (int L)) # calls"
      by blast
    from run(2) joined have "read_packet h
        (c\<lparr>inbuf := store (inbuf c) (int n) (concat (ch # rest)),
           inbuf_bytes := int (2 + L)\<rparr>) = Inr (ret, handled, evs)"
      by simp
    moreover have "readable_events h r0 (ch # rest) w pfd = Inr w2"
      using step1 run(1) by simp
    moreover have "num_clients w2 = num_clients w"
      using run(4) by (simp add: w1_def)
    moreover have "filter is_decoded (trace w2) =
        filter is_decoded (trace w) @ filter is_decoded evs"
      using run(5) by (simp add: w1_def)
    ultimately show ?thesis
      using run(3,6) by blast
  qed
qed


text \<open>
  C3, amended: for a byte stream that is one frame with a one-byte remaining length
  between 1 and 127, arriving at a client with an empty buffer, and for every way of
  splitting it into non-empty reads of which the first delivers more than two bytes, the
  receive path extracts the same frame as if the stream had arrived in one read: the
  message is reported complete exactly once, with its length, \<^verbatim>\<open>handle_connect\<close> is called
  exactly when the type of the frame is \<^verbatim>\<open>T_CONNECT\<close>, and the clients are left in the same
  state.
\<close>

theorem single_frame_split_invariant:
  assumes "clients w = c # cs" and "watcher_fd c = fd c" and "inbuf_bytes c = 0"
    and "payload \<noteq> []" and "uint l = int (length payload)" and "uint l < 128"
    and "concat chunks = t # l # payload" and "[] \<notin> set chunks"
    and "2 < length (hd chunks)"
  shows "\<exists>w1 w2.
     readable_events h r0 chunks w pfd = Inr w1 \<and>
     readable_events h r0 [t # l # payload] w pfd = Inr w2 \<and>
     clients w1 = clients w2 \<and> num_clients w1 = num_clients w2 \<and>
     filter is_decoded (trace w1) = filter is_decoded (trace w2) \<and>
     filter is_decoded (trace w2) =
       filter is_decoded (trace w) @
       Log (Message_is_complete (int (length payload))) #
       (if t AND 0xF0 = T_CONNECT
        then [Call_handle_connect (fd c) (int (length payload))] else [])"
proof -
  let ?L = "length payload"
  let ?frame = "t # l # payload"
  let ?full = "c\<lparr>inbuf := store (inbuf c) (int 0) ?frame, inbuf_bytes := int (2 + ?L)\<rparr>"
  have small: "?L < 128"
    using assms(5,6) by simp
  have lenbyte: "uint (store (inbuf c) (int 0) ?frame 1) = int ?L"
    using assms(5) by (simp add: store_def)
  have "\<exists>w1 ret handled evs calls.
     readable_events h r0 chunks w pfd = Inr w1 \<and>
     read_packet h (c\<lparr>inbuf := store (inbuf c) (int 0) (concat chunks),
                      inbuf_bytes := int (2 + ?L)\<rparr>) = Inr (ret, handled, evs) \<and>
     clients w1 = (if ret \<noteq> 0 then handled\<lparr>inbuf_bytes := 0\<rparr> else handled) # cs \<and>
     num_clients w1 = num_clients w \<and>
     filter is_decoded (trace w1) = filter is_decoded (trace w) @ filter is_decoded evs \<and>
     filter is_decoded evs = Log (Message_is_complete (int ?L)) # calls"
  proof (rule feed_chunks [OF assms(1,2)])
    show "inbuf_bytes c = int 0" using assms(3) by simp
    show "chunks \<noteq> []" using assms(7) by auto
    show "[] \<notin> set chunks" by (rule assms(8))
    show "2 < 0 + length (hd chunks)" using assms(9) by simp
    show "0 + length (concat chunks) = 2 + ?L" using assms(7) by simp
    show "?L < 128" by (rule small)
    show "uint (store (inbuf c) (int 0) (concat chunks) 1) = int ?L"
      using lenbyte assms(7) by simp
  qed
  then obtain w1 ret handled evs calls where split:
    "readable_events h r0 chunks w pfd = Inr w1"
    "read_packet h ?full = Inr (ret, handled, evs)"
    "clients w1 = (if ret \<noteq> 0 then handled\<lparr>inbuf_bytes := 0\<rparr> else handled) # cs"
    "num_clients w1 = num_clients w"
    "filter is_decoded (trace w1) = filter is_decoded (trace w) @ filter is_decoded evs"
    "filter is_decoded evs = Log (Message_is_complete (int ?L)) # calls"
    using assms(7) by auto
  have "\<exists>w2 ret handled evs calls.
     readable_events h r0 [?frame] w pfd = Inr w2 \<and>
     read_packet h (c\<lparr>inbuf := store (inbuf c) (int 0) (concat [?frame]),
                      inbuf_bytes := int (2 + ?L)\<rparr>) = Inr (ret, handled, evs) \<and>
     clients w2 = (if ret \<noteq> 0 then handled\<lparr>inbuf_bytes := 0\<rparr> else handled) # cs \<and>
     num_clients w2 = num_clients w \<and>
     filter is_decoded (trace w2) = filter is_decoded (trace w) @ filter is_decoded evs \<and>
     filter is_decoded evs = Log (Message_is_complete (int ?L)) # calls"
  proof (rule feed_chunks [OF assms(1,2)])
    show "inbuf_bytes c = int 0" using assms(3) by simp
    show "[?frame] \<noteq> []" by simp
    show "[] \<notin> set [?frame]" by simp
    show "2 < 0 + length (hd [?frame])" using assms(4) by simp
    show "0 + length (concat [?frame]) = 2 + ?L" by simp
    show "?L < 128" by (rule small)
    show "uint (store (inbuf c) (int 0) (concat [?frame]) 1) = int ?L"
      using lenbyte by simp
  qed
  then obtain w2 where whole:
    "readable_events h r0 [?frame] w pfd = Inr w2"
    "clients w2 = (if ret \<noteq> 0 then handled\<lparr>inbuf_bytes := 0\<rparr> else handled) # cs"
    "num_clients w2 = num_clients w"
    "filter is_decoded (trace w2) = filter is_decoded (trace w) @ filter is_decoded evs"
    using split(2) by auto
  have "filter is_decoded evs =
      Log (Message_is_complete (inbuf_bytes ?full - 2)) #
      (if inbuf ?full 0 AND 0xF0 = T_CONNECT
       then [Call_handle_connect (fd ?full) (inbuf_bytes ?full - 2)] else [])"
    by (rule read_packet_decoded [OF _ _ _ split(2)]) (use lenbyte small assms(4) in simp_all)
  then have "filter is_decoded evs =
      Log (Message_is_complete (int ?L)) #
      (if t AND 0xF0 = T_CONNECT then [Call_handle_connect (fd c) (int ?L)] else [])"
    by (simp add: store_def)
  with split whole show ?thesis
    by (intro exI [of _ w1] exI [of _ w2]) simp
qed

theorem single_frame_split_invariant_witness:
  "\<exists>w1 w2.
     readable_events accepting 0 [[0x10, 0x03, 0x41], [0x42], [0x43]]
       (one_client S_CONNECTING []) 5 = Inr w1 \<and>
     readable_events accepting 0 [[0x10, 0x03, 0x41, 0x42, 0x43]]
       (one_client S_CONNECTING []) 5 = Inr w2 \<and>
     clients w1 = clients w2 \<and> num_clients w1 = num_clients w2 \<and>
     filter is_decoded (trace w1) = filter is_decoded (trace w2) \<and>
     filter is_decoded (trace w2) = [Log (Message_is_complete 3), Call_handle_connect 5 3]"
proof -
  let ?c = "\<lparr>fd = 5, watcher_fd = 5, state = S_CONNECTING, inbuf = zeroed, inbuf_bytes = 0,
             outgoing_msgs = []\<rparr>"
  let ?w = "one_client S_CONNECTING []"
  let ?payload = "[0x41, 0x42, 0x43] :: byte list"
  let ?chunks = "[[0x10, 0x03, 0x41], [0x42], [0x43]] :: byte list list"
  have "\<exists>w1 w2.
     readable_events accepting 0 ?chunks ?w 5 = Inr w1 \<and>
     readable_events accepting 0 [0x10 # 0x03 # ?payload] ?w 5 = Inr w2 \<and>
     clients w1 = clients w2 \<and> num_clients w1 = num_clients w2 \<and>
     filter is_decoded (trace w1) = filter is_decoded (trace w2) \<and>
     filter is_decoded (trace w2) =
       filter is_decoded (trace ?w) @
       Log (Message_is_complete (int (length ?payload))) #
       (if (0x10 :: byte) AND 0xF0 = T_CONNECT
        then [Call_handle_connect (fd ?c) (int (length ?payload))] else [])"
  proof (rule single_frame_split_invariant [where c = ?c and cs = "[]"])
    show "clients ?w = [?c]" by (simp add: one_client_def)
    show "watcher_fd ?c = fd ?c" by simp
    show "inbuf_bytes ?c = 0" by simp
    show "?payload \<noteq> []" by simp
    show "uint (0x03 :: byte) = int (length ?payload)" by simp
    show "uint (0x03 :: byte) < 128" by simp
    show "concat ?chunks = 0x10 # 0x03 # ?payload" by simp
    show "[] \<notin> set ?chunks" by simp
    show "2 < length (hd ?chunks)" by simp
  qed
  moreover have "trace ?w = []" and "int (length ?payload) = 3"
    and "(0x10 :: byte) AND 0xF0 = T_CONNECT"
    by (simp_all add: one_client_def T_CONNECT_def)
  ultimately show ?thesis
    by simp
qed

section \<open>The handshake\<close>

text \<open>
  C5. The claim: a client in \<^verbatim>\<open>S_CONNECTING\<close> that sends a complete frame of another type
  than \<^verbatim>\<open>T_CONNECT\<close> is torn down, and no handler is called. The code at the frame
  \<open>0x30 0x03 0x00 0x01 0x41\<close>: the message is reported complete, the invalid state is
  logged, no handler is called, and \<^verbatim>\<open>read_packet\<close> returns 0 (line 212, under the comment
  \<^verbatim>\<open>XXX: disconnect client\<close>): the descriptor is not closed, the client stays in the list
  in state \<^verbatim>\<open>S_CONNECTING\<close>, and the five bytes stay in its buffer.
\<close>

theorem wrong_first_frame_keeps_client:
  "(case peer_cb accepting (delivers [0x30, 0x03, 0x00, 0x01, 0x41]) 0
           (one_client S_CONNECTING []) 5 EV_READ of
      Inl e \<Rightarrow> False
    | Inr w \<Rightarrow>
        map fd (clients w) = [5] \<and> map state (clients w) = [S_CONNECTING] \<and>
        map inbuf_bytes (clients w) = [5] \<and> num_clients w = 1 \<and>
        trace w = [Sys_read 5 4096 5, Log (Read_bytes 5), Log (Message_is_complete 3),
                   Log (Invalid_client_state 0x30)])"
  by (simp add: unfold_model)

section \<open>The outbound queue\<close>

text \<open>
  C6. The claim: \<^verbatim>\<open>bytes_sent\<close> stays between 0 and the length of the payload, never
  decreases, and grows by the number of bytes written. The code when \<^verbatim>\<open>write\<close> fails on an
  envelope of three bytes of which none is sent: \<^verbatim>\<open>write\<close> returns \<open>-1\<close>, which is none of
  the positive constants it is compared with (line 148), and line 156 adds it to
  \<^verbatim>\<open>bytes_sent\<close>, which becomes \<open>-1\<close>.
\<close>

theorem failed_write_decrements_bytes_sent:
  "(case peer_cb accepting
           \<lparr>read_data = None, errno = 11, write_accepts = None, close_ret = 0\<rparr> 0
           (one_client S_ESTABLISHED [\<lparr>msg = [1, 2, 3], bytes_total = 3, bytes_sent = 0\<rparr>])
           5 EV_WRITE of
      Inl e \<Rightarrow> False
    | Inr w \<Rightarrow>
        map outgoing_msgs (clients w) =
          [[\<lparr>msg = [1, 2, 3], bytes_total = 3, bytes_sent = - 1\<rparr>]] \<and>
        trace w = [Log (Going_to_send 3 3), Sys_write 5 [Some 1, Some 2, Some 3] (- 1)])"
  by (simp add: unfold_model)

lemma wire_append: "wire (es @ fs) = wire es @ wire fs"
  by (induction es rule: wire.induct) simp_all

lemma mem_read_in_block:
  assumes "0 \<le> off" and "0 \<le> cnt" and "off + cnt \<le> int (length block)"
  shows "mem_read block off cnt = map Some (take (nat cnt) (drop (nat off) block))"
proof (rule nth_equalityI)
  show "length (mem_read block off cnt) =
      length (map Some (take (nat cnt) (drop (nat off) block)))"
    using assms by (simp add: mem_read_def)
next
  fix i assume "i < length (mem_read block off cnt)"
  then have i: "i < nat cnt"
    by (simp add: mem_read_def)
  with assms have "nat off + i < length block"
    by linarith
  with i assms show
    "mem_read block off cnt ! i = map Some (take (nat cnt) (drop (nat off) block)) ! i"
    by (simp add: mem_read_def nat_add_distrib)
qed

lemma offered_pending:
  assumes "envelope_ok e"
  shows "mem_read (msg e) (bytes_sent e) (bytes_total e - bytes_sent e) = map Some (pending e)"
    and "length (pending e) = nat (bytes_total e - bytes_sent e)"
  using assms by (auto simp add: envelope_ok_def pending_def mem_read_in_block)

lemma pending_advance:
  assumes "envelope_ok e" and "k < length (pending e)"
  shows "pending (e\<lparr>bytes_sent := bytes_sent e + int k\<rparr>) = drop k (pending e)"
    and "envelope_ok (e\<lparr>bytes_sent := bytes_sent e + int k\<rparr>)"
  using assms by (auto simp add: envelope_ok_def pending_def nat_add_distrib add.commute)

lemma write_returns_append: "write_returns (es @ fs) = write_returns es @ write_returns fs"
  by (induction es rule: write_returns.induct) simp_all

lemma send_sizes_no_events: "send_sizes ls [] = []"
  by (cases ls) simp_all

text \<open>One write-readiness event when the kernel takes up to \<open>k\<close> bytes: exactly one
  \<^verbatim>\<open>write\<close>, of the pending bytes of the first envelope.\<close>

lemma peer_cb_writable_step:
  assumes w: "clients w = c # cs" "watcher_fd c = fd c"
    and q: "outgoing_msgs c = e # q" and ok: "envelope_ok e"
    and sys: "write_accepts sys = Some k"
  shows "\<exists>w' c'. peer_cb h sys r0 w pfd EV_WRITE = Inr w' \<and> clients w' = c' # cs \<and>
           watcher_fd c' = fd c' \<and>
           wire (trace w') = wire (trace w) @ map Some (take k (pending e)) \<and>
           write_returns (trace w') =
             write_returns (trace w) @ [int (min k (length (pending e)))] \<and>
           (if length (pending e) \<le> k then outgoing_msgs c' = q
            else outgoing_msgs c' = e\<lparr>bytes_sent := bytes_sent e + int k\<rparr> # q)"
proof -
  have len: "int (length (pending e)) = bytes_total e - bytes_sent e"
    using offered_pending(2) [OF ok] ok by (simp add: envelope_ok_def)
  have ne: "bytes_total e \<noteq> bytes_sent e"
    using ok by (simp add: envelope_ok_def)
  show ?thesis
  proof (cases "length (pending e) \<le> k")
    case True
    then have "bytes_sent e + int (min k (length (pending e))) = bytes_total e"
      and "min k (length (pending e)) = length (pending e)"
      using len by (simp_all add: min_def)
    with True show ?thesis
      using w q sys ne offered_pending(1) [OF ok]
      by (simp add: peer_cb_def peer_writable_def EV_READ_def EV_WRITE_def Let_def wire_append
          write_returns_append take_map)
  next
    case False
    then have "bytes_sent e + int (min k (length (pending e))) \<noteq> bytes_total e"
      and "min k (length (pending e)) = k"
      using len by (simp_all add: min_def)
    with False show ?thesis
      using w q sys ne offered_pending(1) [OF ok]
      by (simp add: peer_cb_def peer_writable_def EV_READ_def EV_WRITE_def Let_def wire_append
          write_returns_append take_map)
  qed
qed

text \<open>
  C7, as claimed: the handler makes one send attempt for each ready envelope and stops
  only when a write would block or the queue is empty. The code with two envelopes
  queued and a kernel that takes every byte offered: the callback writes the three bytes
  of the first envelope, removes it, and returns; the second envelope is still queued
  and no \<^verbatim>\<open>write\<close> was tried for it.
\<close>

theorem one_send_attempt_per_event:
  "(case peer_cb accepting (takes 100) 0
           (one_client S_ESTABLISHED
              [\<lparr>msg = [1, 2, 3], bytes_total = 3, bytes_sent = 0\<rparr>,
               \<lparr>msg = [4, 5], bytes_total = 2, bytes_sent = 0\<rparr>]) 5 EV_WRITE of
      Inl e \<Rightarrow> False
    | Inr w \<Rightarrow>
        map outgoing_msgs (clients w) = [[\<lparr>msg = [4, 5], bytes_total = 2, bytes_sent = 0\<rparr>]] \<and>
        filter is_write (trace w) = [Sys_write 5 [Some 1, Some 2, Some 3] 3])"
  by (simp add: unfold_model)

text \<open>
  C7, amended: for a client whose queued envelopes are well formed (some but not all of
  their bytes sent) and any sequence of write-readiness events in which every \<^verbatim>\<open>write\<close>
  succeeds (the kernel takes some number of the offered bytes, possibly none): each
  event at which an envelope is queued makes exactly one send attempt, for the first
  envelope of the queue, and sends as many of its pending bytes as the kernel takes; it
  does not go on to the next envelope. The results of the \<^verbatim>\<open>write\<close> calls are exactly the
  numbers \<open>send_sizes\<close> gives, one call for each event as long as the queue is not empty.
  The bytes put on the wire are in queue order: the first \<open>n\<close> of the pending bytes of the
  first envelope followed by those of the second and so on, where \<open>n\<close> is the sum of the
  results. The queue keeps the envelopes not yet sent completely, in their order and
  well formed, with exactly the bytes not yet on the wire pending.
\<close>

theorem drain_in_queue_order:
  assumes "clients w = c # cs" and "watcher_fd c = fd c"
    and "list_all envelope_ok (outgoing_msgs c)"
    and "list_all (\<lambda>sys. write_accepts sys \<noteq> None) ss"
  shows "\<exists>w' c'. writable_events h ss w pfd = Inr w' \<and> clients w' = c' # cs \<and>
           write_returns (trace w') =
             write_returns (trace w) @
             map int (send_sizes (map (length \<circ> pending) (outgoing_msgs c)) (map accepted ss)) \<and>
           (outgoing_msgs c' \<noteq> [] \<longrightarrow>
              length (write_returns (trace w')) =
                length (write_returns (trace w)) + length ss) \<and>
           wire (trace w') =
             wire (trace w) @
             map Some
               (take (sum_list
                        (send_sizes (map (length \<circ> pending) (outgoing_msgs c)) (map accepted ss)))
                  (concat (map pending (outgoing_msgs c)))) \<and>
           concat (map pending (outgoing_msgs c')) =
             drop (sum_list
                     (send_sizes (map (length \<circ> pending) (outgoing_msgs c)) (map accepted ss)))
               (concat (map pending (outgoing_msgs c))) \<and>
           length (outgoing_msgs c') \<le> length (outgoing_msgs c) \<and>
           map msg (outgoing_msgs c') =
             drop (length (outgoing_msgs c) - length (outgoing_msgs c'))
               (map msg (outgoing_msgs c)) \<and>
           list_all envelope_ok (outgoing_msgs c')"
  using assms
proof (induction ss arbitrary: w c)
  case Nil
  then show ?case
    by (simp add: send_sizes_no_events)
next
  case (Cons sys ss)
  have accs: "list_all (\<lambda>sys. write_accepts sys \<noteq> None) ss"
    using Cons.prems(4) by simp
  show ?case
  proof (cases "outgoing_msgs c")
    case Nil
    have idle: "peer_cb h sys 0 w pfd EV_WRITE = Inr w"
      using Cons.prems(1,2) Nil
      by (simp add: peer_cb_def peer_writable_def EV_READ_def EV_WRITE_def)
    from Cons.IH [OF Cons.prems(1,2,3) accs]
    obtain w' c' where run: "writable_events h ss w pfd = Inr w'" "clients w' = c' # cs"
      "write_returns (trace w') =
         write_returns (trace w) @
         map int (send_sizes (map (length \<circ> pending) (outgoing_msgs c)) (map accepted ss))"
      "wire (trace w') =
         wire (trace w) @
         map Some
           (take (sum_list
                    (send_sizes (map (length \<circ> pending) (outgoing_msgs c)) (map accepted ss)))
              (concat (map pending (outgoing_msgs c))))"
      "length (outgoing_msgs c') \<le> length (outgoing_msgs c)"
      by blast
    from run(5) Nil have empty: "outgoing_msgs c' = []"
      by simp
    have whole: "writable_events h (sys # ss) w pfd = Inr w'"
      using idle run(1) by simp
    have none: "send_sizes (map (length \<circ> pending) (outgoing_msgs c)) (map accepted ss) = []"
      "send_sizes (map (length \<circ> pending) (outgoing_msgs c)) (map accepted (sys # ss)) = []"
      using Nil by simp_all
    from whole run(2) run(3,4) empty Nil show ?thesis
      unfolding none by (intro exI [of _ w'] exI [of _ c']) simp
  next
    case (Cons e q)
    from Cons.prems(4) obtain k where k: "write_accepts sys = Some k"
      by auto
    then have acc: "accepted sys = k"
      by (simp add: accepted_def)
    from Cons.prems(3) Cons have ok: "envelope_ok e" and okq: "list_all envelope_ok q"
      by simp_all
    from peer_cb_writable_step [OF Cons.prems(1,2) Cons ok k, of h 0 pfd]
    obtain w1 c1 where step: "peer_cb h sys 0 w pfd EV_WRITE = Inr w1" "clients w1 = c1 # cs"
      "watcher_fd c1 = fd c1"
      "wire (trace w1) = wire (trace w) @ map Some (take k (pending e))"
      "write_returns (trace w1) = write_returns (trace w) @ [int (min k (length (pending e)))]"
      "if length (pending e) \<le> k then outgoing_msgs c1 = q
       else outgoing_msgs c1 = e\<lparr>bytes_sent := bytes_sent e + int k\<rparr> # q"
      by blast
    let ?e = "e\<lparr>bytes_sent := bytes_sent e + int k\<rparr>"
    have ok1: "list_all envelope_ok (outgoing_msgs c1)"
      using step(6) okq pending_advance(2) [OF ok, of k] by (simp split: if_splits)
    let ?S1 = "send_sizes (map (length \<circ> pending) (outgoing_msgs c1)) (map accepted ss)"
    let ?P1 = "concat (map pending (outgoing_msgs c1))"
    from Cons.IH [OF step(2,3) ok1 accs]
    obtain w' c' where run: "writable_events h ss w1 pfd = Inr w'" "clients w' = c' # cs"
      "write_returns (trace w') = write_returns (trace w1) @ map int ?S1"
      "outgoing_msgs c' \<noteq> [] \<longrightarrow>
         length (write_returns (trace w')) = length (write_returns (trace w1)) + length ss"
      "wire (trace w') = wire (trace w1) @ map Some (take (sum_list ?S1) ?P1)"
      "concat (map pending (outgoing_msgs c')) = drop (sum_list ?S1) ?P1"
      "length (outgoing_msgs c') \<le> length (outgoing_msgs c1)"
      "map msg (outgoing_msgs c') =
         drop (length (outgoing_msgs c1) - length (outgoing_msgs c')) (map msg (outgoing_msgs c1))"
      "list_all envelope_ok (outgoing_msgs c')"
      by blast
    have whole: "writable_events h (sys # ss) w pfd = Inr w'"
      using step(1) run(1) by simp
    let ?R = "concat (map pending q)"
    let ?S = "send_sizes (map (length \<circ> pending) (outgoing_msgs c)) (map accepted (sys # ss))"
    let ?P = "concat (map pending (outgoing_msgs c))"
    have P: "?P = pending e @ ?R"
      using Cons by simp
    have count: "outgoing_msgs c' \<noteq> [] \<longrightarrow>
        length (write_returns (trace w')) = length (write_returns (trace w)) + length (sys # ss)"
      using run(4) step(5) by simp
    show ?thesis
    proof (cases "length (pending e) \<le> k")
      case True
      with step(6) have q1: "outgoing_msgs c1 = q"
        by simp
      have sizes: "?S = length (pending e) # ?S1"
        using True acc q1 Cons by (simp add: min_def)
      have drops: "Suc (length q) - length (outgoing_msgs c') =
          Suc (length q - length (outgoing_msgs c'))"
        using run(7) q1 by simp
      have returns: "write_returns (trace w') = write_returns (trace w) @ map int ?S"
        unfolding sizes using run(3) step(5) True by (simp add: min_def)
      have sent: "wire (trace w') = wire (trace w) @ map Some (take (sum_list ?S) ?P)"
        unfolding sizes P using run(5) step(4) True q1 by simp
      have kept: "concat (map pending (outgoing_msgs c')) = drop (sum_list ?S) ?P"
        unfolding sizes P using run(6) q1 by simp
      have shorter: "length (outgoing_msgs c') \<le> length (outgoing_msgs c)"
        using run(7) q1 Cons by simp
      have order: "map msg (outgoing_msgs c') =
          drop (length (outgoing_msgs c) - length (outgoing_msgs c')) (map msg (outgoing_msgs c))"
        using run(8) q1 drops Cons by simp
      from whole run(2) returns count sent kept shorter order run(9) show ?thesis
        by (intro exI [of _ w'] exI [of _ c'] conjI)
    next
      case False
      with step(6) have q1: "outgoing_msgs c1 = ?e # q"
        by simp
      from False have adv: "pending ?e = drop k (pending e)"
        using pending_advance(1) [OF ok, of k] by simp
      have sizes: "?S = k # ?S1"
        using False acc q1 adv Cons by (simp add: min_def)
      have split: "take (k + sum_list ?S1) (pending e @ ?R) =
          take k (pending e) @ take (sum_list ?S1) (drop k (pending e) @ ?R)"
        by (subst take_add) (use False in simp)
      have rest: "drop (k + sum_list ?S1) (pending e @ ?R) =
          drop (sum_list ?S1) (drop k (pending e) @ ?R)"
        by (subst add.commute, subst drop_drop [symmetric]) (use False in simp)
      have returns: "write_returns (trace w') = write_returns (trace w) @ map int ?S"
        unfolding sizes using run(3) step(5) False by (simp add: min_def)
      have sent: "wire (trace w') = wire (trace w) @ map Some (take (sum_list ?S) ?P)"
        unfolding sizes P using run(5) step(4) q1 adv split by simp
      have kept: "concat (map pending (outgoing_msgs c')) = drop (sum_list ?S) ?P"
        unfolding sizes P using run(6) q1 adv rest by simp
      have shorter: "length (outgoing_msgs c') \<le> length (outgoing_msgs c)"
        using run(7) q1 Cons by simp
      have order: "map msg (outgoing_msgs c') =
          drop (length (outgoing_msgs c) - length (outgoing_msgs c')) (map msg (outgoing_msgs c))"
        using run(8) q1 Cons by simp
      from whole run(2) returns count sent kept shorter order run(9) show ?thesis
        by (intro exI [of _ w'] exI [of _ c'] conjI)
    qed
  qed
qed

theorem drain_in_queue_order_witness:
  "\<exists>w' c'.
     writable_events accepting [takes 2, takes 0, takes 2]
       (one_client S_ESTABLISHED
          [\<lparr>msg = [1, 2, 3], bytes_total = 3, bytes_sent = 0\<rparr>,
           \<lparr>msg = [4, 5], bytes_total = 2, bytes_sent = 0\<rparr>,
           \<lparr>msg = [6], bytes_total = 1, bytes_sent = 0\<rparr>]) 5 = Inr w' \<and>
     clients w' = [c'] \<and>
     write_returns (trace w') = [2, 0, 1] \<and>
     length (write_returns (trace w')) = 3 \<and>
     wire (trace w') = [Some 1, Some 2, Some 3] \<and>
     concat (map pending (outgoing_msgs c')) = [4, 5, 6] \<and>
     outgoing_msgs c' =
       [\<lparr>msg = [4, 5], bytes_total = 2, bytes_sent = 0\<rparr>,
        \<lparr>msg = [6], bytes_total = 1, bytes_sent = 0\<rparr>]"
proof -
  let ?q = "[\<lparr>msg = [1, 2, 3], bytes_total = 3, bytes_sent = 0\<rparr>,
             \<lparr>msg = [4, 5], bytes_total = 2, bytes_sent = 0\<rparr>,
             \<lparr>msg = [6], bytes_total = 1, bytes_sent = 0\<rparr>]"
  let ?c = "\<lparr>fd = 5, watcher_fd = 5, state = S_ESTABLISHED, inbuf = zeroed, inbuf_bytes = 0,
             outgoing_msgs = ?q\<rparr>"
  let ?w = "one_client S_ESTABLISHED ?q"
  let ?ss = "[takes 2, takes 0, takes 2]"
  have world: "clients ?w = ?c # []" and watcher: "watcher_fd ?c = fd ?c"
    by (simp_all add: one_client_def)
  have queue: "list_all envelope_ok (outgoing_msgs ?c)"
    by (simp add: envelope_ok_def)
  have kernel: "list_all (\<lambda>sys. write_accepts sys \<noteq> None) ?ss"
    by (simp add: takes_def)
  have sizes: "send_sizes (map (length \<circ> pending) (outgoing_msgs ?c)) (map accepted ?ss) =
      [2, 0, 1]"
    by (simp add: pending_def accepted_def takes_def)
  have bytes: "concat (map pending (outgoing_msgs ?c)) = [1, 2, 3, 4, 5, 6]"
    by (simp add: pending_def)
  have start: "write_returns (trace ?w) = []" "wire (trace ?w) = []"
    by (simp_all add: one_client_def)
  from drain_in_queue_order [OF world watcher queue kernel, of accepting 5]
  obtain w' c' where run: "writable_events accepting ?ss ?w 5 = Inr w'" "clients w' = [c']"
    and returns: "write_returns (trace w') =
      write_returns (trace ?w) @
      map int (send_sizes (map (length \<circ> pending) (outgoing_msgs ?c)) (map accepted ?ss))"
    and count: "outgoing_msgs c' \<noteq> [] \<longrightarrow>
      length (write_returns (trace w')) = length (write_returns (trace ?w)) + length ?ss"
    and sent: "wire (trace w') =
      wire (trace ?w) @
      map Some
        (take (sum_list
                 (send_sizes (map (length \<circ> pending) (outgoing_msgs ?c)) (map accepted ?ss)))
           (concat (map pending (outgoing_msgs ?c))))"
    and kept: "concat (map pending (outgoing_msgs c')) =
      drop (sum_list
              (send_sizes (map (length \<circ> pending) (outgoing_msgs ?c)) (map accepted ?ss)))
        (concat (map pending (outgoing_msgs ?c)))"
    by blast
  have r: "write_returns (trace w') = [2, 0, 1]"
    using returns unfolding sizes start by simp
  have s: "wire (trace w') = [Some 1, Some 2, Some 3]"
    using sent unfolding sizes bytes start by simp
  have k: "concat (map pending (outgoing_msgs c')) = [4, 5, 6]"
    using kept unfolding sizes bytes by simp
  have "map outgoing_msgs (clients w') =
      [[\<lparr>msg = [4, 5], bytes_total = 2, bytes_sent = 0\<rparr>,
        \<lparr>msg = [6], bytes_total = 1, bytes_sent = 0\<rparr>]]"
    using run(1) by (auto simp add: unfold_model)
  with run(2) have left: "outgoing_msgs c' =
      [\<lparr>msg = [4, 5], bytes_total = 2, bytes_sent = 0\<rparr>,
       \<lparr>msg = [6], bytes_total = 1, bytes_sent = 0\<rparr>]"
    by simp
  with count start have n: "length (write_returns (trace w')) = 3"
    by simp
  from run r n s k left show ?thesis
    by (intro exI [of _ w'] exI [of _ c'] conjI)
qed

section \<open>The callback\<close>

text \<open>
  C8. The claim: the callback resolves the client whose descriptor is the one of the
  event. The code with two clients, accepted on descriptors 5 and then 6, and an event of
  the watcher of descriptor 5: the lookup stops at the head of the list, the client of
  descriptor 6; \<^verbatim>\<open>read\<close> is called on descriptor 6 and the three bytes are counted in the
  buffer of that client, the buffer of the client of descriptor 5 stays empty.
\<close>

theorem event_of_5_handled_by_6:
  "map fd (clients two_clients) = [6, 5] \<and>
   (case peer_cb accepting (delivers [0x10, 0x05, 0x00]) 0 two_clients 5 EV_READ of
      Inl e \<Rightarrow> False
    | Inr w \<Rightarrow>
        map fd (clients w) = [6, 5] \<and> map inbuf_bytes (clients w) = [3, 0] \<and>
        drop 6 (trace w) =
          [Sys_read 6 4096 3, Log (Read_bytes 3), Log (Expected_but_got 5 1)])"
  by (simp add: unfold_model)

text \<open>
  C9. The claim: a read of zero bytes tears the client down, a read that would block does
  nothing, and every other read error tears the client down. The code when \<^verbatim>\<open>read\<close>
  returns \<open>-1\<close> with \<^verbatim>\<open>errno = ECONNRESET\<close> (104): the branch of line 119 logs the failure and
  returns; the descriptor is not closed and the client stays in the list. (The test for
  \<open>-1\<close> and \<^verbatim>\<open>EAGAIN\<close> of line 100, which tells a read that would block from other errors,
  stands in the branch of a zero result, where it is never true.)
\<close>

theorem read_error_keeps_client:
  "(case peer_cb accepting
           \<lparr>read_data = None, errno = 104, write_accepts = None, close_ret = 0\<rparr> 0
           (one_client S_ESTABLISHED []) 5 EV_READ of
      Inl e \<Rightarrow> False
    | Inr w \<Rightarrow>
        map fd (clients w) = [5] \<and> num_clients w = 1 \<and>
        trace w = [Sys_read 5 4096 (- 1), Log (Read_failed (- 1))])"
  by (simp add: unfold_model)

lemma read_packet_no_write:
  "read_packet h c = Inr (r, c', evs) \<Longrightarrow> filter is_write evs = []"
  by (auto simp: read_packet_def split: if_splits prod.splits)

lemma peer_readable_no_write:
  "peer_readable h sys r0 w i = Inr w' \<Longrightarrow>
   filter is_write (trace w') = filter is_write (trace w)"
  by (auto simp: peer_readable_def Let_def dest: read_packet_no_write
      split: if_splits sum.splits option.splits)

text \<open>
  C10. When the callback is invoked with read-readiness signalled, whatever the other
  bits of \<^verbatim>\<open>revents\<close>, only the read branch runs: the callback does what it does for
  \<^verbatim>\<open>EV_READ\<close> alone and makes no \<^verbatim>\<open>write\<close> call. A \<^verbatim>\<open>write\<close> call is made only in an
  invocation with write-readiness and without read-readiness.
\<close>

theorem read_readiness_excludes_write:
  assumes "peer_cb h sys r0 w pfd revents = Inr w'"
  shows "(revents AND EV_READ \<noteq> 0 \<longrightarrow>
            filter is_write (trace w') = filter is_write (trace w) \<and>
            peer_cb h sys r0 w pfd EV_READ = Inr w') \<and>
         (filter is_write (trace w') \<noteq> filter is_write (trace w) \<longrightarrow>
            revents AND EV_READ = 0 \<and> revents AND EV_WRITE \<noteq> 0)"
  using assms
  by (auto simp: peer_cb_def EV_READ_def dest: peer_readable_no_write
      split: option.splits if_splits)

theorem read_readiness_excludes_write_witness:
  "(\<exists>w'. peer_cb accepting
           \<lparr>read_data = Some [0x10, 0x01, 0x00], errno = 0, write_accepts = Some 3,
            close_ret = 0\<rparr> 0
           (one_client S_CONNECTING [\<lparr>msg = [1, 2, 3], bytes_total = 3, bytes_sent = 0\<rparr>])
           5 (EV_READ OR EV_WRITE) = Inr w' \<and>
         (EV_READ OR EV_WRITE) AND EV_READ \<noteq> 0 \<and>
         filter is_write (trace w') = [] \<and>
         map outgoing_msgs (clients w') =
           [[\<lparr>msg = [1, 2, 3], bytes_total = 3, bytes_sent = 0\<rparr>]]) \<and>
   (\<exists>w'. peer_cb accepting (takes 3) 0
           (one_client S_ESTABLISHED [\<lparr>msg = [1, 2, 3], bytes_total = 3, bytes_sent = 0\<rparr>])
           5 EV_WRITE = Inr w' \<and>
         filter is_write (trace w') = [Sys_write 5 [Some 1, Some 2, Some 3] 3] \<and>
         EV_WRITE AND EV_READ = 0 \<and> EV_WRITE AND EV_WRITE \<noteq> 0)"
proof
  let ?w = "one_client S_CONNECTING [\<lparr>msg = [1, 2, 3], bytes_total = 3, bytes_sent = 0\<rparr>]"
  let ?run = "peer_cb accepting
           \<lparr>read_data = Some [0x10, 0x01, 0x00], errno = 0, write_accepts = Some 3,
            close_ret = 0\<rparr> 0 ?w 5 (EV_READ OR EV_WRITE)"
  obtain w' where run: "?run = Inr w'"
    by (simp add: unfold_model)
  have queue: "map outgoing_msgs (clients w') =
      [[\<lparr>msg = [1, 2, 3], bytes_total = 3, bytes_sent = 0\<rparr>]]"
    using run by (auto simp add: unfold_model)
  have ready: "(EV_READ OR EV_WRITE) AND EV_READ \<noteq> 0"
    by (simp add: EV_READ_def EV_WRITE_def)
  have "filter is_write (trace w') = filter is_write (trace ?w)"
    using read_readiness_excludes_write [OF run] ready by blast
  then have "filter is_write (trace w') = []"
    by (simp add: one_client_def)
  with run queue ready have "?run = Inr w' \<and>
         (EV_READ OR EV_WRITE) AND EV_READ \<noteq> 0 \<and>
         filter is_write (trace w') = [] \<and>
         map outgoing_msgs (clients w') =
           [[\<lparr>msg = [1, 2, 3], bytes_total = 3, bytes_sent = 0\<rparr>]]"
    by (intro conjI)
  then show "\<exists>w'. ?run = Inr w' \<and>
         (EV_READ OR EV_WRITE) AND EV_READ \<noteq> 0 \<and>
         filter is_write (trace w') = [] \<and>
         map outgoing_msgs (clients w') =
           [[\<lparr>msg = [1, 2, 3], bytes_total = 3, bytes_sent = 0\<rparr>]]" ..
next
  let ?w = "one_client S_ESTABLISHED [\<lparr>msg = [1, 2, 3], bytes_total = 3, bytes_sent = 0\<rparr>]"
  let ?run = "peer_cb accepting (takes 3) 0 ?w 5 EV_WRITE"
  obtain w' where run: "?run = Inr w'"
    by (simp add: unfold_model)
  have written: "filter is_write (trace w') = [Sys_write 5 [Some 1, Some 2, Some 3] 3]"
    using run by (auto simp add: unfold_model)
  then have "filter is_write (trace w') \<noteq> filter is_write (trace ?w)"
    by (simp add: one_client_def)
  with read_readiness_excludes_write [OF run]
  have "EV_WRITE AND EV_READ = 0 \<and> EV_WRITE AND EV_WRITE \<noteq> 0"
    by blast
  with run written have "?run = Inr w' \<and>
         filter is_write (trace w') = [Sys_write 5 [Some 1, Some 2, Some 3] 3] \<and>
         EV_WRITE AND EV_READ = 0 \<and> EV_WRITE AND EV_WRITE \<noteq> 0"
    by (intro conjI) simp_all
  then show "\<exists>w'. ?run = Inr w' \<and>
         filter is_write (trace w') = [Sys_write 5 [Some 1, Some 2, Some 3] 3] \<and>
         EV_WRITE AND EV_READ = 0 \<and> EV_WRITE AND EV_WRITE \<noteq> 0" ..
qed

end
